theory Spec2Isabelle
  imports Complex_Main "HOL-Library.Char_ord" "HOL-Library.List_Lexorder"
begin

section \<open>Strings\<close>

text \<open>
  A JavaScript string is a sequence of UTF-16 code units. Every function of
  \<^verbatim>\<open>src/util.ts\<close> inspects code units only by comparing them with ASCII
  characters, so a string is modelled as a \<^typ>\<open>string\<close> (a list of \<^typ>\<open>char\<close>),
  one \<^typ>\<open>char\<close> per code unit.
\<close>

definition squote :: char where
  "squote = CHR 0x27"

definition dquote :: char where
  "dquote = CHR 0x22"

definition backslash :: char where
  "backslash = CHR 0x5C"

definition newline :: char where
  "newline = CHR 0x0A"

text \<open>\<^verbatim>\<open>s.replace(/c/g, r)\<close> for a one-character pattern: every occurrence of
  \<open>c\<close> becomes the string \<open>r\<close> (no \<^verbatim>\<open>$\<close> occurs in the replacement strings
  used by the source, so they are taken literally).\<close>

definition replace_char :: "char \<Rightarrow> string \<Rightarrow> string \<Rightarrow> string" where
  "replace_char c r s = concat (map (\<lambda>x. if x = c then r else [x]) s)"

text \<open>\<^verbatim>\<open>s.startsWith(p)\<close>.\<close>

fun starts_with :: "string \<Rightarrow> string \<Rightarrow> bool" where
  "starts_with s [] = True"
| "starts_with [] (p # ps) = False"
| "starts_with (c # cs) (p # ps) = (c = p \<and> starts_with cs ps)"

text \<open>\<^verbatim>\<open>s.includes(sub)\<close>: \<open>sub\<close> occurs in \<open>s\<close>.\<close>

fun contains_str :: "string \<Rightarrow> string \<Rightarrow> bool" where
  "contains_str [] sub = (sub = [])"
| "contains_str (c # cs) sub = (starts_with (c # cs) sub \<or> contains_str cs sub)"

section \<open>shellescape\<close>

text \<open>The character class \<^verbatim>\<open>[A-Za-z0-9_\/:=-]\<close> of the test in line 8.\<close>

definition bare_char :: "char \<Rightarrow> bool" where
  "bare_char c \<longleftrightarrow>
     (CHR ''A'' \<le> c \<and> c \<le> CHR ''Z'') \<or> (CHR ''a'' \<le> c \<and> c \<le> CHR ''z'') \<or>
     (CHR ''0'' \<le> c \<and> c \<le> CHR ''9'') \<or>
     c = CHR ''_'' \<or> c = CHR ''/'' \<or> c = CHR '':'' \<or> c = CHR ''='' \<or> c = CHR ''-''"

text \<open>\<^verbatim>\<open>/[^A-Za-z0-9_\/:=-]/.test(s)\<close>: some character lies outside the class.\<close>

definition needs_quoting :: "string \<Rightarrow> bool" where
  "needs_quoting s = list_ex (\<lambda>c. \<not> bare_char c) s"

text \<open>\<^verbatim>\<open>s.replace(/^(?:'')+/g, '')\<close>: the pattern is anchored at the start of the
  string and the group is greedy, so the longest run of pairs of single quotes at the
  very beginning is removed.\<close>

fun strip_leading_pairs :: "string \<Rightarrow> string" where
  "strip_leading_pairs (a # b # cs) =
     (if a = squote \<and> b = squote then strip_leading_pairs cs else a # b # cs)"
| "strip_leading_pairs cs = cs"

text \<open>\<^verbatim>\<open>s.replace(/\\'''/g, "\\'")\<close>: scanning from the left, every (non-overlapping)
  occurrence of a backslash followed by three single quotes becomes a backslash followed
  by one single quote.\<close>

fun collapse_quotes :: "string \<Rightarrow> string" where
  "collapse_quotes (a # b # c # d # cs) =
     (if a = backslash \<and> b = squote \<and> c = squote \<and> d = squote
      then backslash # squote # collapse_quotes cs
      else a # collapse_quotes (b # c # d # cs))"
| "collapse_quotes cs = cs"

text \<open>\<^verbatim>\<open>s.replace(/'/g, "'\\''")\<close> of line 9: every single quote becomes the four
  characters quote, backslash, quote, quote.\<close>

definition escape_quotes :: "string \<Rightarrow> string" where
  "escape_quotes s = replace_char squote [squote, backslash, squote, squote] s"

text \<open>\<^verbatim>\<open>shellescape\<close>, lines 4 to 15. The value of \<^verbatim>\<open>process.platform\<close> is an
  argument.\<close>

definition shellescape :: "string \<Rightarrow> string \<Rightarrow> string" where
  "shellescape platform s =
     (if platform = ''win32''
      then [dquote] @ replace_char dquote [backslash, dquote] s @ [dquote]
      else if needs_quoting s
      then
        (let s1 = [squote] @ escape_quotes s @ [squote];
             s2 = collapse_quotes (strip_leading_pairs s1)
         in s2)
      else s)"

section \<open>Quote removal of a POSIX shell\<close>

text \<open>
  The reading of one word by a POSIX shell (Shell Command Language, 2.2 Quoting):
  outside quotes a single quote opens a quoted part, a backslash keeps the next character
  as it is (a backslash before a newline is a line continuation and both vanish), an
  unquoted operator, blank, dollar sign, backquote, double quote, pattern character,
  hash or tilde is not part of a plain word (\<open>None\<close>: the token is not read as
  one literal word), and every other character stands for itself. Inside single quotes
  every character stands for itself up to the closing single quote; an unclosed quote is
  an error.
\<close>

definition sh_special :: "char \<Rightarrow> bool" where
  "sh_special c \<longleftrightarrow> c \<in> set ''|&;<>()$`*?[#~'' \<or> c = dquote \<or> c = CHR '' '' \<or> c = CHR 0x09 \<or> c = newline"

fun sh_unquoted :: "string \<Rightarrow> string option"
  and sh_quoted :: "string \<Rightarrow> string option" where
  "sh_unquoted [] = Some []"
| "sh_unquoted (c # cs) =
     (if c = squote then sh_quoted cs
      else if c = backslash then
        (case cs of
           [] \<Rightarrow> None
         | d # ds \<Rightarrow> if d = newline then sh_unquoted ds else map_option ((#) d) (sh_unquoted ds))
      else if sh_special c then None
      else map_option ((#) c) (sh_unquoted cs))"
| "sh_quoted [] = None"
| "sh_quoted (c # cs) =
     (if c = squote then sh_unquoted cs else map_option ((#) c) (sh_quoted cs))"

definition sh_parse_word :: "string \<Rightarrow> string option" where
  "sh_parse_word tok = sh_unquoted tok"

section \<open>Numbers in template literals\<close>

text \<open>Timeouts, exit codes and line numbers are whole numbers; fractions and the special
  values of JavaScript numbers are not modelled. The decimal digits of a natural number:\<close>

definition digit_char :: "nat \<Rightarrow> char" where
  "digit_char d = ''0123456789'' ! d"

function show_nat :: "nat \<Rightarrow> string" where
  "show_nat n = (if n < 10 then [digit_char n] else show_nat (n div 10) @ [digit_char (n mod 10)])"
  by pat_completeness auto
termination
  by (relation "measure (\<lambda>n. n)") auto

declare show_nat.simps [simp del]

text \<open>
  A template literal \<^verbatim>\<open>${n}\<close> prints a safe integer (one below \<open>2^53\<close>) in its decimal
  digits. A larger number is printed with rounded digits or in exponent form, by rules on
  floating-point values that are not modelled here: what the runtime prints for such a
  number is an argument, \<open>big\<close>, of every function that prints a number.
\<close>

type_synonym number_printer = "nat \<Rightarrow> string"

definition number_text :: "number_printer \<Rightarrow> nat \<Rightarrow> string" where
  "number_text big n = (if n < 9007199254740992 then show_nat n else big n)"

definition int_text :: "number_printer \<Rightarrow> int \<Rightarrow> string" where
  "int_text big i =
     (if i < 0 then CHR ''-'' # number_text big (nat (- i)) else number_text big (nat i))"

text \<open>In the examples below every printed number is a safe integer; there the printer of
  larger numbers is never asked and is this one.\<close>

definition no_printer :: number_printer where
  "no_printer n = []"

section \<open>The process runner\<close>

subsection \<open>Promises, timers and the child process\<close>

text \<open>
  What \<^verbatim>\<open>exec\<close> hands to its callback (lines 75 and 94): the error object, or
  \<^verbatim>\<open>null\<close>, and the captured output. Of the error object the source reads only
  \<^verbatim>\<open>code\<close>: the exit status of a process that exited with a nonzero status, an
  error name when the process could not be run, and \<^verbatim>\<open>null\<close> when a signal ended it.
\<close>

datatype err_code = ExitCode int | ErrName string | NoCode

record exec_error =
  code :: err_code

record exec_report =
  err :: "exec_error option"
  stdout :: string
  stderr :: string

text \<open>The behaviour of the operating system for one call of \<^verbatim>\<open>exec\<close>: the time, in
  milliseconds after the call, at which the callback runs and what it is given, or
  \<open>None\<close> for a process that never completes. The capability \<^verbatim>\<open>exec\<close> itself is a
  function from the command line and the options (an opaque type) to this behaviour.\<close>

type_synonym child = "(nat \<times> exec_report) option"

type_synonym 'o exec_fn = "string \<Rightarrow> 'o \<Rightarrow> child"

text \<open>A promise is pending (\<open>None\<close>) or settled at a time with an outcome. Only the first
  call of \<^verbatim>\<open>resolve\<close> or \<^verbatim>\<open>reject\<close> settles it; later calls do nothing.\<close>

datatype 'a outcome = Resolved 'a | Rejected string

type_synonym 'a promise = "(nat \<times> 'a outcome) option"

definition settle :: "nat \<Rightarrow> 'a outcome \<Rightarrow> 'a promise \<Rightarrow> 'a promise" where
  "settle now out p = (case p of None \<Rightarrow> Some (now, out) | Some x \<Rightarrow> Some x)"

text \<open>\<^verbatim>\<open>setTimeout(callback, after)\<close> of the runtime: a delay that is not between 1
  and \<open>2^31 - 1\<close> milliseconds is replaced by 1 millisecond.\<close>

definition TIMEOUT_MAX :: nat where
  "TIMEOUT_MAX = 2147483647"

definition setTimeout_delay :: "nat \<Rightarrow> nat" where
  "setTimeout_delay after = (if 1 \<le> after \<and> after \<le> TIMEOUT_MAX then after else 1)"

text \<open>\<^verbatim>\<open>if (timeout) { timer = setTimeout(..., timeout * 1000) }\<close>, lines 70 to 74 and
  89 to 93: an absent timeout and the timeout 0 are falsy and set no timer; any other
  timeout sets a timer with the argument timeout times 1000. The result is the delay, in
  milliseconds, after which the timer fires.\<close>

definition set_timer :: "nat option \<Rightarrow> nat option" where
  "set_timer timeout =
     (case timeout of
        None \<Rightarrow> None
      | Some n \<Rightarrow> if n = 0 then None else Some (setTimeout_delay (n * 1000)))"

text \<open>The callbacks the event loop dispatches for one call, in order: the timer's at its
  delay and the one of \<^verbatim>\<open>exec\<close> at the time the child completes. When both fall on
  the same millisecond the timer's runs first (the event loop runs due timers before
  input/output callbacks).\<close>

datatype event = TimerFired | ExecReturned exec_report

definition event_order :: "nat option \<Rightarrow> child \<Rightarrow> (nat \<times> event) list" where
  "event_order timer child =
     (case child of
        None \<Rightarrow> (case timer of None \<Rightarrow> [] | Some d \<Rightarrow> [(d, TimerFired)])
      | Some (t, r) \<Rightarrow>
          (case timer of
             None \<Rightarrow> [(t, ExecReturned r)]
           | Some d \<Rightarrow>
               if t < d then [(t, ExecReturned r), (d, TimerFired)]
               else [(d, TimerFired), (t, ExecReturned r)]))"

text \<open>The state of one call: the promise and whether the timer is still set. The
  callback of \<^verbatim>\<open>exec\<close> first clears the timer (\<^verbatim>\<open>if (timer) clearTimeout(timer)\<close>), so
  a timer that has not fired by then never does.\<close>

record 'a call_state =
  promise_of :: "'a promise"
  timer_set :: bool

definition dispatch ::
  "'a outcome \<Rightarrow> (exec_report \<Rightarrow> 'a outcome) \<Rightarrow> nat \<times> event \<Rightarrow> 'a call_state \<Rightarrow> 'a call_state" where
  "dispatch on_timer on_exec ev st =
     (case ev of
        (now, TimerFired) \<Rightarrow>
          if timer_set st
          then st\<lparr>promise_of := settle now on_timer (promise_of st), timer_set := False\<rparr>
          else st
      | (now, ExecReturned r) \<Rightarrow>
          st\<lparr>promise_of := settle now (on_exec r) (promise_of st), timer_set := False\<rparr>)"

definition run_promise ::
  "'a outcome \<Rightarrow> (exec_report \<Rightarrow> 'a outcome) \<Rightarrow> nat option \<Rightarrow> child \<Rightarrow> 'a promise" where
  "run_promise on_timer on_exec timer child =
     promise_of (fold (dispatch on_timer on_exec) (event_order timer child)
       \<lparr>promise_of = None, timer_set = (timer \<noteq> None)\<rparr>)"

subsection \<open>runCommand, getStdout and safeRun\<close>

text \<open>The message of the timer's rejection, lines 72 and 91.\<close>

definition timeout_message :: "number_printer \<Rightarrow> nat option \<Rightarrow> string" where
  "timeout_message big timeout =
     ''timeout after '' @
     (case timeout of None \<Rightarrow> ''undefined'' | Some n \<Rightarrow> number_text big n) @ ''s''"

text \<open>\<^verbatim>\<open>${err.code}\<close> in line 78.\<close>

definition render_code :: "number_printer \<Rightarrow> err_code \<Rightarrow> string" where
  "render_code big c =
     (case c of ExitCode n \<Rightarrow> int_text big n | ErrName s \<Rightarrow> s | NoCode \<Rightarrow> ''null'')"

text \<open>The callback of \<^verbatim>\<open>exec\<close> in \<^verbatim>\<open>runCommand\<close>, lines 75 to 82.\<close>

definition runCommand_callback :: "number_printer \<Rightarrow> exec_report \<Rightarrow> string outcome" where
  "runCommand_callback big r =
     (case err r of
        Some e \<Rightarrow> Rejected (''exited with '' @ render_code big (code e) @ [newline] @ stderr r)
      | None \<Rightarrow> Resolved (stdout r))"

definition runCommand ::
  "number_printer \<Rightarrow> 'o exec_fn \<Rightarrow> string \<Rightarrow> 'o \<Rightarrow> nat option \<Rightarrow> string promise" where
  "runCommand big exec cmd opts timeout =
     run_promise (Rejected (timeout_message big timeout)) (runCommand_callback big)
       (set_timer timeout) (exec cmd opts)"



text \<open>\<^verbatim>\<open>safeRun\<close>, lines 17 to 25: the promise of \<^verbatim>\<open>runCommand\<close> with the timeout
  argument 5000 is awaited; a rejection is caught, its message is written to the console
  and the result is \<^verbatim>\<open>null\<close> (\<open>None\<close>). The second component is what was written to
  the console.\<close>

definition safeRun ::
  "number_printer \<Rightarrow> 'o exec_fn \<Rightarrow> string \<Rightarrow> 'o \<Rightarrow> string option promise \<times> string list" where
  "safeRun big exec cmd opts =
     (case runCommand big exec cmd opts (Some 5000) of
        None \<Rightarrow> (None, [])
      | Some (t, Resolved out) \<Rightarrow> (Some (t, Resolved (Some out)), [])
      | Some (t, Rejected msg) \<Rightarrow> (Some (t, Resolved None), [msg]))"

subsection \<open>Example children\<close>

text \<open>\<^verbatim>\<open>sleep 10\<close>: the child completes after ten seconds with exit status 0 and no
  output.\<close>

definition sleep10_exec :: "unit exec_fn" where
  "sleep10_exec cmd opts = Some (10000, \<lparr>err = None, stdout = [], stderr = []\<rparr>)"

text \<open>\<^verbatim>\<open>sleep 2; printf boom >&2; exit 3\<close>: the child completes after two seconds
  with exit status 3.\<close>

definition failing_exec :: "unit exec_fn" where
  "failing_exec cmd opts =
     Some (2000, \<lparr>err = Some \<lparr>code = ExitCode 3\<rparr>, stdout = [], stderr = ''boom''\<rparr>)"

text \<open>A child that prints \<^verbatim>\<open>partial\<close> and exits with status 1 after six seconds.\<close>

definition six_seconds_exec :: "unit exec_fn" where
  "six_seconds_exec cmd opts =
     Some (6000, \<lparr>err = Some \<lparr>code = ExitCode 1\<rparr>, stdout = ''partial'', stderr = ''late''\<rparr>)"

text \<open>\<^verbatim>\<open>sleep 1; printf ok\<close>: the child completes after one second with exit status 0.\<close>

definition one_second_exec :: "unit exec_fn" where
  "one_second_exec cmd opts = Some (1000, \<lparr>err = None, stdout = ''ok'', stderr = []\<rparr>)"

text \<open>A child that never completes.\<close>

definition hanging_exec :: "unit exec_fn" where
  "hanging_exec cmd opts = None"

section \<open>Deep equality\<close>

subsection \<open>Values and the heap\<close>

text \<open>
  JavaScript values: primitives are compared by value, arrays, objects and functions by
  reference. A reference is an address into a heap of cells. The number \<^verbatim>\<open>NaN\<close> is
  kept apart from the other numbers, since \<^verbatim>\<open>===\<close> treats it differently; finite
  numbers are compared by their numeric value (so \<^verbatim>\<open>+0\<close> and \<^verbatim>\<open>-0\<close> are the same
  number, as for \<^verbatim>\<open>===\<close>). Symbols and big integers are left out.
  An object is the list of its enumerable properties in the order \<^verbatim>\<open>for ... in\<close>
  visits them.
\<close>

datatype jsnumber = NaN | Infinity bool | Finite rat

type_synonym addr = nat

datatype jsval =
  JUndefined | JNull | JBool bool | JNum jsnumber | JStr string | JRef addr

datatype cell =
  ArrayCell "jsval list" | ObjectCell "(string \<times> jsval) list" | FunctionCell

type_synonym heap = "cell list"

definition cell_at :: "heap \<Rightarrow> addr \<Rightarrow> cell option" where
  "cell_at h a = (if a < length h then Some (h ! a) else None)"

text \<open>\<^verbatim>\<open>one === other\<close>: same type and same value, or the same reference;
  \<^verbatim>\<open>NaN\<close> is not equal to itself.\<close>

fun strict_eq :: "jsval \<Rightarrow> jsval \<Rightarrow> bool" where
  "strict_eq JUndefined JUndefined = True"
| "strict_eq JNull JNull = True"
| "strict_eq (JBool x) (JBool y) = (x = y)"
| "strict_eq (JNum x) (JNum y) = (x \<noteq> NaN \<and> y \<noteq> NaN \<and> x = y)"
| "strict_eq (JStr x) (JStr y) = (x = y)"
| "strict_eq (JRef x) (JRef y) = (x = y)"
| "strict_eq _ _ = False"

datatype typetag = T_undefined | T_object | T_boolean | T_number | T_string | T_function

text \<open>\<^verbatim>\<open>typeof\<close>. A reference to no cell of the heap is not a value (\<open>None\<close>).\<close>

definition typeof :: "heap \<Rightarrow> jsval \<Rightarrow> typetag option" where
  "typeof h v =
     (case v of
        JUndefined \<Rightarrow> Some T_undefined
      | JNull \<Rightarrow> Some T_object
      | JBool _ \<Rightarrow> Some T_boolean
      | JNum _ \<Rightarrow> Some T_number
      | JStr _ \<Rightarrow> Some T_string
      | JRef a \<Rightarrow>
          (case cell_at h a of
             None \<Rightarrow> None
           | Some FunctionCell \<Rightarrow> Some T_function
           | Some _ \<Rightarrow> Some T_object))"

definition isArray :: "heap \<Rightarrow> jsval \<Rightarrow> bool" where
  "isArray h v =
     (case v of
        JRef a \<Rightarrow> (case cell_at h a of Some (ArrayCell _) \<Rightarrow> True | _ \<Rightarrow> False)
      | _ \<Rightarrow> False)"

text \<open>The elements of an array value and the properties of an object value.\<close>

definition array_elems :: "heap \<Rightarrow> jsval \<Rightarrow> jsval list" where
  "array_elems h v =
     (case v of
        JRef a \<Rightarrow> (case cell_at h a of Some (ArrayCell xs) \<Rightarrow> xs | _ \<Rightarrow> [])
      | _ \<Rightarrow> [])"

definition properties :: "heap \<Rightarrow> jsval \<Rightarrow> (string \<times> jsval) list" where
  "properties h v =
     (case v of
        JRef a \<Rightarrow> (case cell_at h a of Some (ObjectCell kvs) \<Rightarrow> kvs | _ \<Rightarrow> [])
      | _ \<Rightarrow> [])"

text \<open>\<^verbatim>\<open>xs[i]\<close> and \<^verbatim>\<open>obj[key]\<close>: a missing element or property reads as
  \<^verbatim>\<open>undefined\<close>.\<close>

definition elem_at :: "jsval list \<Rightarrow> nat \<Rightarrow> jsval" where
  "elem_at xs i = (if i < length xs then xs ! i else JUndefined)"

definition get_prop :: "(string \<times> jsval) list \<Rightarrow> string \<Rightarrow> jsval" where
  "get_prop kvs k = (case map_of kvs k of None \<Rightarrow> JUndefined | Some v \<Rightarrow> v)"

text \<open>\<^verbatim>\<open>for (key in one) oneKeys.push(key)\<close>, lines 140 to 144.\<close>

definition own_keys :: "(string \<times> jsval) list \<Rightarrow> string list" where
  "own_keys kvs = map fst kvs"

subsection \<open>equals\<close>

text \<open>The loops of lines 134 to 138 and 154 to 158: the comparisons run in order and the
  first one that is false ends the loop with \<^verbatim>\<open>false\<close>; \<open>None\<close> is a comparison that
  does not return.\<close>

fun every_equal :: "('a \<Rightarrow> bool option) \<Rightarrow> 'a list \<Rightarrow> bool option" where
  "every_equal f [] = Some True"
| "every_equal f (x # xs) =
     (case f x of
        None \<Rightarrow> None
      | Some False \<Rightarrow> Some False
      | Some True \<Rightarrow> every_equal f xs)"

text \<open>
  \<^verbatim>\<open>equals\<close>, lines 105 to 161. On cyclic values the recursion of the source does not
  end (the call stack overflows), so the model takes the depth of calls it may use as its
  first argument and returns \<open>None\<close> when that depth does not suffice.
  \<^verbatim>\<open>oneKeys\<close> and \<^verbatim>\<open>otherKeys\<close> are two new arrays of strings: they are allocated at
  the end of the heap for the call that compares them. Nothing reachable from the
  compared values refers to them, so the loop over the keys reads the heap as it was.
  \<^verbatim>\<open>sort()\<close> without a comparison function orders strings by their code units.
  A reference to no cell of the heap is not a value of the program; on it the model
  returns \<open>None\<close> as well.
\<close>

primrec equals :: "nat \<Rightarrow> heap \<Rightarrow> jsval \<Rightarrow> jsval \<Rightarrow> bool option" where
  "equals 0 h one other = None"
| "equals (Suc n) h one other =
     (if strict_eq one other then Some True
      else if one = JNull \<or> one = JUndefined \<or> other = JNull \<or> other = JUndefined
      then Some False
      else if typeof h one = None \<or> typeof h other = None then None
      else if typeof h one \<noteq> typeof h other then Some False
      else if typeof h one \<noteq> Some T_object then Some False
      else if isArray h one \<noteq> isArray h other then Some False
      else if isArray h one then
        (let xs = array_elems h one; ys = array_elems h other
         in if length xs \<noteq> length ys then Some False
            else every_equal (\<lambda>i. equals n h (elem_at xs i) (elem_at ys i)) [0..<length xs])
      else
        (let oneKeys = sort (own_keys (properties h one));
             otherKeys = sort (own_keys (properties h other));
             h' = h @ [ArrayCell (map JStr oneKeys), ArrayCell (map JStr otherKeys)]
         in case equals n h' (JRef (length h)) (JRef (Suc (length h))) of
              None \<Rightarrow> None
            | Some False \<Rightarrow> Some False
            | Some True \<Rightarrow>
                every_equal
                  (\<lambda>k. equals n h (get_prop (properties h one) k) (get_prop (properties h other) k))
                  oneKeys))"

text \<open>The mapping case as the specification words it (section 4.2, step 7): the sorted
  lists of key names are compared as sequences; if they are equal the values at each of
  the sorted keys are compared by \<open>rec\<close>, in order.\<close>

definition mapping_case_spec ::
  "(jsval \<Rightarrow> jsval \<Rightarrow> bool option) \<Rightarrow> (string \<times> jsval) list \<Rightarrow> (string \<times> jsval) list \<Rightarrow> bool option" where
  "mapping_case_spec rec m1 m2 =
     (if sort (map fst m1) = sort (map fst m2)
      then every_equal (\<lambda>k. rec (get_prop m1 k) (get_prop m2 k)) (sort (map fst m1))
      else Some False)"

definition nullish :: "jsval \<Rightarrow> bool" where
  "nullish v \<longleftrightarrow> v = JNull \<or> v = JUndefined"

subsection \<open>Example heaps\<close>

text \<open>\<^verbatim>\<open>{a: 1, b: 2}\<close> at address 0 and \<^verbatim>\<open>{b: 2, a: 1}\<close> at address 1.\<close>

definition ab_heap :: heap where
  "ab_heap =
     [ObjectCell [(''a'', JNum (Finite 1)), (''b'', JNum (Finite 2))],
      ObjectCell [(''b'', JNum (Finite 2)), (''a'', JNum (Finite 1))]]"

text \<open>\<^verbatim>\<open>{xs: [1, [2, 3]], n: NaN}\<close> at address 0; its arrays at addresses 1 and 2.\<close>

definition nested_heap :: heap where
  "nested_heap =
     [ObjectCell [(''xs'', JRef 1), (''n'', JNum NaN)],
      ArrayCell [JNum (Finite 1), JRef 2],
      ArrayCell [JNum (Finite 2), JNum (Finite 3)]]"

section \<open>The remote URL builder\<close>

text \<open>\<^verbatim>\<open>remote.replace(/\.git$/, '')\<close>, line 164: without the multiline flag \<^verbatim>\<open>$\<close>
  matches at the end of the string only, so a final \<^verbatim>\<open>.git\<close> is cut off.\<close>

definition strip_git_suffix :: "string \<Rightarrow> string" where
  "strip_git_suffix remote =
     (if starts_with (rev remote) (rev ''.git'') then take (length remote - 4) remote
      else remote)"

text \<open>\<^verbatim>\<open>str.split(c)\<close> for a one-character separator: the pieces between the
  separators; the empty string gives one empty piece.\<close>

fun split_on :: "char \<Rightarrow> string \<Rightarrow> string list" where
  "split_on c [] = [[]]"
| "split_on c (x # xs) =
     (if x = c then [] # split_on c xs
      else (case split_on c xs of [] \<Rightarrow> [[x]] | p # ps \<Rightarrow> (x # p) # ps))"

text \<open>\<^verbatim>\<open>${parts[i]}\<close>: a missing element prints as \<^verbatim>\<open>undefined\<close>.\<close>

definition part_text :: "string list \<Rightarrow> nat \<Rightarrow> string" where
  "part_text parts i = (if i < length parts then parts ! i else ''undefined'')"

text \<open>\<^verbatim>\<open>xs.join(sep)\<close>.\<close>

fun join :: "string \<Rightarrow> string list \<Rightarrow> string" where
  "join sep [] = []"
| "join sep [x] = x"
| "join sep (x # y # ys) = x @ sep @ join sep (y # ys)"

text \<open>The optional argument \<^verbatim>\<open>lines\<close>: absent, a list of line numbers, or a string.\<close>

datatype lines_arg = NoLines | LineNumbers "nat list" | LineString string

text \<open>A notification shown to the user: the message and its severity.\<close>

type_synonym notification = "string \<times> string"

text \<open>Lines 164 to 169: the value of \<^verbatim>\<open>uri\<close> that is parsed.\<close>

definition normalize_remote :: "string \<Rightarrow> string" where
  "normalize_remote remote =
     (let uri = strip_git_suffix remote
      in if starts_with uri ''git''
         then
           (let str = drop 4 uri;
                parts = take 2 (split_on CHR 0x3A str)
            in ''https://'' @ part_text parts 0 @ ''/'' @ part_text parts 1)
         else uri)"

text \<open>
  \<^verbatim>\<open>Uri.parse\<close> belongs to the editor's library. It returns a URI, of which the source
  reads only \<^verbatim>\<open>authority\<close>, or it throws an error: the parser is an argument of
  \<open>getUrl\<close>, a function from the string to the error thrown or the authority found.
\<close>

datatype error = UriError string

type_synonym uri_parser = "string \<Rightarrow> error + string"

text \<open>
  \<^verbatim>\<open>getUrl\<close>, lines 163 to 182. The source has no handler, so an error thrown by
  \<^verbatim>\<open>Uri.parse\<close> in line 170 leaves \<^verbatim>\<open>getUrl\<close> as it is; no other operation of these
  lines raises on strings. Of a result that is returned, the second component is the list
  of notifications shown.
\<close>

definition getUrl ::
  "number_printer \<Rightarrow> uri_parser \<Rightarrow> string \<Rightarrow> string \<Rightarrow> string \<Rightarrow> lines_arg \<Rightarrow>
   error + (string \<times> notification list)" where
  "getUrl big uri_parse remote branch filepath lines =
     (let uri = normalize_remote remote
      in case uri_parse uri of
           Inl e \<Rightarrow> Inl e
         | Inr authority \<Rightarrow>
             if starts_with authority ''github.com''
             then
               (let anchor =
                      (case lines of
                         LineNumbers ls \<Rightarrow> join ''-'' (map (\<lambda>l. ''L'' @ number_text big l) ls)
                       | LineString str \<Rightarrow> str
                       | NoLines \<Rightarrow> [])
                in Inr (uri @ ''/blob/'' @ branch @ ''/'' @ filepath @
                          (if anchor \<noteq> [] then ''#'' @ anchor else []),
                        []))
             else Inr ([], [(''Can'' @ [squote] @ ''t get url form: '' @ authority, ''warning'')]))"

subsection \<open>A parser for the examples\<close>

text \<open>
  The parser of the library (\<^verbatim>\<open>vscode-uri\<close>), as far as the examples need it. It splits
  the string by the pattern of RFC 3986, appendix B: an optional scheme, which ends at
  the first colon and holds no slash, question mark or hash; after \<^verbatim>\<open>//\<close> the
  authority, up to the next slash, question mark or hash; then the path, up to the next
  question mark or hash. Then it validates the parts and throws when the scheme holds a
  character that is not allowed, when there is an authority and the path is neither
  empty nor starts with a slash, or when there is no authority and the path starts with
  two slashes. Percent-encoded characters are not decoded here.
\<close>

definition uri_delim :: "char \<Rightarrow> bool" where
  "uri_delim c \<longleftrightarrow> c = CHR ''/'' \<or> c = CHR ''?'' \<or> c = CHR ''#''"

definition scheme_of :: "string \<Rightarrow> string" where
  "scheme_of s =
     (let pre = takeWhile (\<lambda>c. c \<noteq> CHR 0x3A \<and> \<not> uri_delim c) s;
          rest = drop (length pre) s
      in if pre \<noteq> [] \<and> starts_with rest [CHR 0x3A] then pre else [])"

definition after_scheme :: "string \<Rightarrow> string" where
  "after_scheme s = (if scheme_of s \<noteq> [] then drop (Suc (length (scheme_of s))) s else s)"

definition authority_of :: "string \<Rightarrow> string" where
  "authority_of s =
     (let r = after_scheme s
      in if starts_with r ''//'' then takeWhile (\<lambda>c. \<not> uri_delim c) (drop 2 r) else [])"

definition path_of :: "string \<Rightarrow> string" where
  "path_of s =
     (let r = after_scheme s;
          p = (if starts_with r ''//'' then dropWhile (\<lambda>c. \<not> uri_delim c) (drop 2 r) else r)
      in takeWhile (\<lambda>c. c \<noteq> CHR ''?'' \<and> c \<noteq> CHR ''#'') p)"

text \<open>The pattern \<^verbatim>\<open>/^\w[\w\d+.-]*$/\<close> for schemes.\<close>

definition word_char :: "char \<Rightarrow> bool" where
  "word_char c \<longleftrightarrow>
     (CHR ''A'' \<le> c \<and> c \<le> CHR ''Z'') \<or> (CHR ''a'' \<le> c \<and> c \<le> CHR ''z'') \<or>
     (CHR ''0'' \<le> c \<and> c \<le> CHR ''9'') \<or> c = CHR ''_''"

definition scheme_ok :: "string \<Rightarrow> bool" where
  "scheme_ok sch =
     (case sch of
        [] \<Rightarrow> False
      | c # cs \<Rightarrow>
          word_char c \<and>
          list_all (\<lambda>x. word_char x \<or> x = CHR ''+'' \<or> x = CHR ''.'' \<or> x = CHR ''-'') cs)"

text \<open>The errors of the validation.\<close>

definition illegal_scheme_error :: error where
  "illegal_scheme_error = UriError ''[UriError]: Scheme contains illegal characters.''"

definition path_needs_slash_error :: error where
  "path_needs_slash_error =
     UriError (''[UriError]: If a URI contains an authority component, then the path '' @
       ''component must either be empty or begin with a slash ('' @ [dquote] @ ''/'' @ [dquote] @
       '') character'')"

definition two_slashes_error :: error where
  "two_slashes_error =
     UriError (''[UriError]: If a URI does not contain an authority component, then the '' @
       ''path cannot begin with two slash characters ('' @ [dquote] @ ''//'' @ [dquote] @ '')'')"

definition example_parser :: uri_parser where
  "example_parser s =
     (let sch = scheme_of s; auth = authority_of s; p = path_of s
      in if sch \<noteq> [] \<and> \<not> scheme_ok sch then Inl illegal_scheme_error
         else if p \<noteq> [] \<and> auth \<noteq> [] \<and> \<not> starts_with p ''/'' then Inl path_needs_slash_error
         else if p \<noteq> [] \<and> auth = [] \<and> starts_with p ''//'' then Inl two_slashes_error
         else Inr auth)"

section \<open>Quoting round trip\<close>

lemma escape_quotes_Nil: "escape_quotes [] = []"
  by (simp add: escape_quotes_def replace_char_def)

lemma escape_quotes_quote:
  "escape_quotes (squote # s) = squote # backslash # squote # squote # escape_quotes s"
  by (simp add: escape_quotes_def replace_char_def)

lemma escape_quotes_other: "c \<noteq> squote \<Longrightarrow> escape_quotes (c # s) = c # escape_quotes s"
  by (simp add: escape_quotes_def replace_char_def)

lemma special_chars_differ:
  "squote \<noteq> backslash" "backslash \<noteq> squote" "squote \<noteq> newline"
  by (simp_all add: squote_def backslash_def newline_def)

lemma collapse_other: "x \<noteq> backslash \<Longrightarrow> collapse_quotes (x # xs) = x # collapse_quotes xs"
  by (cases xs rule: collapse_quotes.cases) auto

lemma collapse_no_match:
  "\<not> (\<exists>ys. xs = squote # squote # squote # ys) \<Longrightarrow>
   collapse_quotes (x # xs) = x # collapse_quotes xs"
  by (cases xs rule: collapse_quotes.cases) auto

text \<open>What follows a character of the quoted body never begins with two single quotes,
  so a backslash of the input itself is never taken for an escaping one.\<close>

lemma body_no_pair: "escape_quotes s @ [squote] \<noteq> squote # squote # ys"
proof (cases s)
  case Nil
  then show ?thesis by (simp add: escape_quotes_Nil)
next
  case (Cons c s')
  then show ?thesis
    by (cases "c = squote")
      (simp_all add: escape_quotes_quote escape_quotes_other special_chars_differ)
qed

lemma collapse_body_step:
  "c \<noteq> squote \<Longrightarrow>
   collapse_quotes (c # escape_quotes s @ [squote]) = c # collapse_quotes (escape_quotes s @ [squote])"
  by (rule collapse_no_match) (simp add: body_no_pair)

text \<open>The two states of the reader: inside a quoted part the rest of the token reads as
  \<open>s\<close>; before an escaped quote, outside quotes, it reads as a quote followed by \<open>s\<close>.\<close>

lemma roundtrip_states:
  "sh_quoted (collapse_quotes (escape_quotes s @ [squote])) = Some s \<and>
   sh_unquoted (collapse_quotes (backslash # squote # squote # escape_quotes s @ [squote])) =
     Some (squote # s)"
proof (induction s)
  case Nil
  show ?case by (simp add: escape_quotes_Nil special_chars_differ)
next
  case (Cons c s)
  from Cons have ih1: "sh_quoted (collapse_quotes (escape_quotes s @ [squote])) = Some s"
    and ih2: "sh_unquoted (collapse_quotes (backslash # squote # squote # escape_quotes s @ [squote])) =
      Some (squote # s)"
    by simp_all
  show ?case
  proof (cases "c = squote")
    case True
    have a: "collapse_quotes (escape_quotes (squote # s) @ [squote]) =
        squote # collapse_quotes (backslash # squote # squote # escape_quotes s @ [squote])"
      by (simp add: escape_quotes_quote collapse_other special_chars_differ)
    have b: "collapse_quotes (backslash # squote # squote # escape_quotes (squote # s) @ [squote]) =
        backslash # squote #
          collapse_quotes (backslash # squote # squote # escape_quotes s @ [squote])"
      by (simp add: escape_quotes_quote)
    have "sh_quoted (collapse_quotes (escape_quotes (squote # s) @ [squote])) = Some (squote # s)"
      by (simp add: a ih2 del: collapse_quotes.simps)
    moreover have
      "sh_unquoted (collapse_quotes (backslash # squote # squote # escape_quotes (squote # s) @ [squote])) =
         Some (squote # squote # s)"
      by (simp add: b ih2 special_chars_differ del: collapse_quotes.simps)
    ultimately show ?thesis using True by simp
  next
    case False
    have a: "collapse_quotes (escape_quotes (c # s) @ [squote]) =
        c # collapse_quotes (escape_quotes s @ [squote])"
      using False by (simp add: escape_quotes_other collapse_body_step)
    have b: "collapse_quotes (backslash # squote # squote # escape_quotes (c # s) @ [squote]) =
        backslash # squote # squote # c # collapse_quotes (escape_quotes s @ [squote])"
    proof -
      have "collapse_quotes (backslash # squote # squote # c # escape_quotes s @ [squote]) =
          backslash # collapse_quotes (squote # squote # c # escape_quotes s @ [squote])"
        using False by (intro collapse_no_match) simp
      then show ?thesis
        using False
        by (simp add: escape_quotes_other collapse_body_step collapse_other special_chars_differ
            del: collapse_quotes.simps)
    qed
    have "sh_quoted (collapse_quotes (escape_quotes (c # s) @ [squote])) = Some (c # s)"
      using False by (simp add: a ih1 del: collapse_quotes.simps)
    moreover have
      "sh_unquoted (collapse_quotes (backslash # squote # squote # escape_quotes (c # s) @ [squote])) =
         Some (squote # c # s)"
      using False by (simp add: b ih1 special_chars_differ del: collapse_quotes.simps)
    ultimately show ?thesis by simp
  qed
qed

lemma strip_wrapped:
  "strip_leading_pairs (squote # escape_quotes s @ [squote]) =
     (case s of
        [] \<Rightarrow> []
      | c # s' \<Rightarrow>
          if c = squote then backslash # squote # squote # escape_quotes s' @ [squote]
          else squote # escape_quotes s @ [squote])"
  by (cases s) (auto simp: escape_quotes_Nil escape_quotes_quote escape_quotes_other special_chars_differ)

lemma posix_roundtrip:
  assumes "platform \<noteq> ''win32''" "needs_quoting s"
  shows "sh_parse_word (shellescape platform s) = Some s"
proof (cases s)
  case Nil
  with assms show ?thesis by (simp add: needs_quoting_def)
next
  case (Cons c s')
  show ?thesis
  proof (cases "c = squote")
    case True
    then show ?thesis
      using assms Cons roundtrip_states [of s']
      by (simp add: shellescape_def sh_parse_word_def strip_wrapped
          del: strip_leading_pairs.simps collapse_quotes.simps)
  next
    case False
    then show ?thesis
      using assms Cons roundtrip_states [of s]
      by (simp add: shellescape_def sh_parse_word_def strip_wrapped collapse_other
          special_chars_differ del: strip_leading_pairs.simps collapse_quotes.simps)
  qed
qed

lemma quote_needs_quoting: "squote \<in> set s \<Longrightarrow> needs_quoting s"
  by (auto simp: needs_quoting_def list_ex_iff bare_char_def squote_def intro!: bexI [of _ "CHR 0x27"])

text \<open>
  C1. For every string \<open>s\<close> that contains a single quote, on a platform other than
  \<^verbatim>\<open>win32\<close> the token \<open>shellescape s\<close>, cleanup passes included, is read by a POSIX
  shell as one word whose value is exactly \<open>s\<close>.
\<close>

theorem shellescape_roundtrip:
  "squote \<in> set s \<Longrightarrow> platform \<noteq> ''win32'' \<Longrightarrow>
   sh_parse_word (shellescape platform s) = Some s"
  by (simp add: posix_roundtrip quote_needs_quoting)

text \<open>The witness of C1: \<^verbatim>\<open>it's\<close> becomes \<^verbatim>\<open>'it'\''s'\<close> and is read back, and
  \<^verbatim>\<open>''\<close>, where both cleanup passes apply, becomes \<^verbatim>\<open>\'\'\<close>.\<close>

theorem shellescape_roundtrip_witness:
  "squote \<in> set (''it'' @ [squote] @ ''s'') \<and> ''linux'' \<noteq> ''win32'' \<and>
   shellescape ''linux'' (''it'' @ [squote] @ ''s'') =
     [squote] @ ''it'' @ [squote, backslash, squote, squote] @ ''s'' @ [squote] \<and>
   sh_parse_word (shellescape ''linux'' (''it'' @ [squote] @ ''s'')) = Some (''it'' @ [squote] @ ''s'') \<and>
   shellescape ''linux'' [squote, squote] = [backslash, squote, backslash, squote] \<and>
   sh_parse_word (shellescape ''linux'' [squote, squote]) = Some [squote, squote]"
proof -
  have q: "squote \<in> set (''it'' @ [squote] @ ''s'')" "squote \<in> set [squote, squote]"
    by simp_all
  have p: "''linux'' \<noteq> ''win32''"
    by simp
  have n: "needs_quoting (''it'' @ [squote] @ ''s'')" "needs_quoting [squote, squote]"
    using q by (simp_all only: quote_needs_quoting)
  have e1: "shellescape ''linux'' (''it'' @ [squote] @ ''s'') =
      [squote] @ ''it'' @ [squote, backslash, squote, squote] @ ''s'' @ [squote]"
    using n(1) by (simp add: shellescape_def escape_quotes_def replace_char_def squote_def backslash_def)
  have e2: "shellescape ''linux'' [squote, squote] = [backslash, squote, backslash, squote]"
    using n(2) by (simp add: shellescape_def escape_quotes_def replace_char_def squote_def backslash_def)
  from q p e1 e2 shellescape_roundtrip [OF q(1) p] shellescape_roundtrip [OF q(2) p]
  show ?thesis by simp
qed

section \<open>The process runner: settling the promise\<close>

lemma show_nat_digit: "n < 10 \<Longrightarrow> show_nat n = [digit_char n]"
  by (simp add: show_nat.simps)

lemma show_nat_step: "10 \<le> n \<Longrightarrow> show_nat n = show_nat (n div 10) @ [digit_char (n mod 10)]"
  by (simp add: show_nat.simps)

lemma show_nat_examples:
  "show_nat 1 = ''1''" "show_nat (Suc 0) = ''1''" "show_nat 2 = ''2''" "show_nat 3 = ''3''"
  "show_nat 10 = ''10''" "show_nat 20 = ''20''" "show_nat 5000 = ''5000''"
  "show_nat 2147484 = ''2147484''"
  by (simp_all add: show_nat_step show_nat_digit digit_char_def)

lemma number_text_safe: "n < 9007199254740992 \<Longrightarrow> number_text big n = show_nat n"
  by (simp add: number_text_def)

text \<open>Which callback settles the promise.\<close>

lemma run_promise_no_timer:
  "run_promise a f None child = (case child of None \<Rightarrow> None | Some (t, r) \<Rightarrow> Some (t, f r))"
  by (simp add: run_promise_def event_order_def dispatch_def settle_def split: option.splits)

lemma run_promise_timer_only: "run_promise a f (Some d) None = Some (d, a)"
  by (simp add: run_promise_def event_order_def dispatch_def settle_def)

lemma run_promise_timer_first: "d \<le> t \<Longrightarrow> run_promise a f (Some d) (Some (t, r)) = Some (d, a)"
  by (simp add: run_promise_def event_order_def dispatch_def settle_def)

lemma run_promise_exec_first: "t < d \<Longrightarrow> run_promise a f (Some d) (Some (t, r)) = Some (t, f r)"
  by (simp add: run_promise_def event_order_def dispatch_def settle_def)

text \<open>The delay of the timer: the timeout in milliseconds up to 2147483 seconds, and one
  millisecond beyond.\<close>

lemma set_timer_small: "n \<noteq> 0 \<Longrightarrow> n \<le> 2147483 \<Longrightarrow> set_timer (Some n) = Some (n * 1000)"
  by (simp add: set_timer_def setTimeout_delay_def TIMEOUT_MAX_def)

lemma set_timer_large: "2147483 < n \<Longrightarrow> set_timer (Some n) = Some 1"
  by (simp add: set_timer_def setTimeout_delay_def TIMEOUT_MAX_def)

lemma set_timer_off: "set_timer None = None" "set_timer (Some 0) = None"
  by (simp_all add: set_timer_def)


lemma starts_with_append: "starts_with (b @ c) b"
  by (induction b) simp_all

lemma contains_append: "contains_str (a @ b @ c) b"
proof (induction a)
  case Nil
  show ?case by (cases "b @ c") (use starts_with_append [of b c] in auto)
next
  case (Cons x a)
  then show ?case by simp
qed

text \<open>
  C5, as stated, fails for timeouts above 2147483 seconds: the delay handed to the timer
  then exceeds what \<^verbatim>\<open>setTimeout\<close> accepts and becomes one millisecond. With the
  timeout 2147484 a child that never completes is rejected after one millisecond, not
  once the timeout has elapsed, and a child that completes after one second, long before
  the timeout, is rejected with the timeout error all the same.
\<close>

theorem runCommand_timeout_counterexample:
  "runCommand no_printer hanging_exec ''cat'' () (Some 2147484) =
     Some (1, Rejected ''timeout after 2147484s'') \<and>
   runCommand no_printer one_second_exec ''sleep 1; printf ok'' () (Some 2147484) =
     Some (1, Rejected ''timeout after 2147484s'')"
  by (simp add: runCommand_def hanging_exec_def one_second_exec_def set_timer_large
      run_promise_timer_only run_promise_timer_first timeout_message_def number_text_safe
      show_nat_examples)

text \<open>
  C5, amended. \<^verbatim>\<open>runCommand\<close> with a nonzero timeout of \<open>n\<close> seconds, \<open>n\<close> at most
  2147483, when the child has not completed after \<open>n * 1000\<close> milliseconds (or never
  completes), is rejected at that time with the timeout error. With an absent timeout or
  the timeout 0 no timer is set: the promise is settled by the child's completion alone,
  and stays pending if the child never completes.
\<close>

theorem runCommand_timeout:
  "(n \<noteq> 0 \<and> n \<le> 2147483 \<and>
    (exec cmd opts = None \<or> (\<exists>t r. exec cmd opts = Some (t, r) \<and> n * 1000 < t)) \<longrightarrow>
      runCommand big exec cmd opts (Some n) =
        Some (n * 1000, Rejected (''timeout after '' @ show_nat n @ ''s''))) \<and>
   (timeout = None \<or> timeout = Some 0 \<longrightarrow>
      set_timer timeout = None \<and>
      runCommand big exec cmd opts timeout =
        (case exec cmd opts of None \<Rightarrow> None | Some (t, r) \<Rightarrow> Some (t, runCommand_callback big r)))"
  by (auto simp: runCommand_def set_timer_small set_timer_off run_promise_no_timer
      run_promise_timer_only run_promise_timer_first timeout_message_def number_text_safe)

text \<open>The witness of C5: \<^verbatim>\<open>runCommand("sleep 10", {}, 1)\<close> is rejected after 1000
  milliseconds, not 10000; with the timeout 0 or none it resolves after 10000.\<close>

theorem runCommand_timeout_witness:
  "runCommand no_printer sleep10_exec ''sleep 10'' () (Some 1) =
     Some (1000, Rejected ''timeout after 1s'') \<and>
   runCommand no_printer sleep10_exec ''sleep 10'' () (Some 0) = Some (10000, Resolved []) \<and>
   runCommand no_printer sleep10_exec ''sleep 10'' () None = Some (10000, Resolved [])"
  using runCommand_timeout [of 1 sleep10_exec "''sleep 10''" "()" no_printer "Some 0"]
    runCommand_timeout [of 1 sleep10_exec "''sleep 10''" "()" no_printer "None"]
  by (simp add: sleep10_exec_def show_nat_examples runCommand_callback_def)

text \<open>
  C6, as stated, fails: a command that exits with status 3 after two seconds, run with a
  timeout of one second, is rejected with the timeout error, whose message holds neither
  the exit status nor the captured error output.
\<close>

theorem runCommand_exit_counterexample:
  "runCommand no_printer failing_exec ''sleep 2; printf boom >&2; exit 3'' () (Some 1) =
     Some (1000, Rejected ''timeout after 1s'') \<and>
   \<not> contains_str ''timeout after 1s'' ''3'' \<and>
   \<not> contains_str ''timeout after 1s'' ''boom''"
  by (simp add: runCommand_def failing_exec_def set_timer_small run_promise_timer_first
      timeout_message_def number_text_safe show_nat_examples)

text \<open>
  C6, amended. When the callback of \<^verbatim>\<open>exec\<close> runs before any timer fires (no timer is
  set, or the child completes before the delay of the timer, which is the timeout times
  1000 milliseconds, and one millisecond where that exceeds 2147483647): with an error
  object the promise is rejected with the message \<^verbatim>\<open>exited with\<close>, the error's code, a
  newline and the captured error output, so the message includes both; without one it is
  resolved with the captured output.
\<close>

theorem runCommand_exit:
  assumes "exec cmd opts = Some (t, r)"
    and "set_timer timeout = None \<or> (\<exists>d. set_timer timeout = Some d \<and> t < d)"
  shows "(err r = None \<longrightarrow> runCommand big exec cmd opts timeout = Some (t, Resolved (stdout r))) \<and>
    (\<forall>e. err r = Some e \<longrightarrow>
       runCommand big exec cmd opts timeout =
         Some (t, Rejected (''exited with '' @ render_code big (code e) @ [newline] @ stderr r)) \<and>
       contains_str (''exited with '' @ render_code big (code e) @ [newline] @ stderr r)
         (render_code big (code e)) \<and>
       contains_str (''exited with '' @ render_code big (code e) @ [newline] @ stderr r) (stderr r))"
proof -
  have run: "runCommand big exec cmd opts timeout = Some (t, runCommand_callback big r)"
    using assms by (auto simp: runCommand_def run_promise_no_timer run_promise_exec_first)
  have c1: "contains_str (''exited with '' @ x @ [newline] @ y) x" for x y
    by (rule contains_append)
  have c2: "contains_str (''exited with '' @ x @ [newline] @ y) y" for x y
    using contains_append [of "''exited with '' @ x @ [newline]" y "[]"] by simp
  show ?thesis
    using c1 c2 by (simp add: run runCommand_callback_def del: contains_str.simps)
qed

text \<open>The witness of C6: exit status 3 within a timeout of three seconds, and exit
  status 0 without a timeout.\<close>

theorem runCommand_exit_witness:
  "runCommand no_printer failing_exec ''sleep 2; printf boom >&2; exit 3'' () (Some 3) =
     Some (2000, Rejected (''exited with 3'' @ [newline] @ ''boom'')) \<and>
   runCommand no_printer sleep10_exec ''sleep 10'' () None = Some (10000, Resolved [])"
  using runCommand_exit [of failing_exec "''sleep 2; printf boom >&2; exit 3''" "()" 2000
      "\<lparr>err = Some \<lparr>code = ExitCode 3\<rparr>, stdout = [], stderr = ''boom''\<rparr>" "Some 3" no_printer]
    runCommand_exit [of sleep10_exec "''sleep 10''" "()" 10000
      "\<lparr>err = None, stdout = [], stderr = []\<rparr>" None no_printer]
  by (simp add: failing_exec_def sleep10_exec_def set_timer_small set_timer_off render_code_def
      int_text_def number_text_safe show_nat_examples del: contains_str.simps)







text \<open>
  C10. \<^verbatim>\<open>safeRun\<close> calls \<^verbatim>\<open>runCommand\<close> with the timeout argument 5000, whose timer
  is set to \<open>5000 * 1000 = 5000000\<close> milliseconds: a child that never completes, or
  completes later than that, makes \<^verbatim>\<open>safeRun\<close> resolve with \<^verbatim>\<open>null\<close> at 5000000
  milliseconds, and every child that completes earlier, also one that takes longer than
  five seconds, settles it by its own completion.
\<close>

theorem safeRun_timer:
  "set_timer (Some 5000) = Some 5000000 \<and>
   (exec cmd opts = None \<longrightarrow>
      safeRun big exec cmd opts = (Some (5000000, Resolved None), [''timeout after 5000s''])) \<and>
   (exec cmd opts = Some (t, r) \<and> 5000000 < t \<longrightarrow>
      safeRun big exec cmd opts = (Some (5000000, Resolved None), [''timeout after 5000s''])) \<and>
   (exec cmd opts = Some (t, r) \<and> t < 5000000 \<longrightarrow>
      safeRun big exec cmd opts =
        (case err r of
           None \<Rightarrow> (Some (t, Resolved (Some (stdout r))), [])
         | Some e \<Rightarrow>
             (Some (t, Resolved None),
              [''exited with '' @ render_code big (code e) @ [newline] @ stderr r])))"
proof -
  have timer: "set_timer (Some 5000) = Some 5000000"
    by (simp add: set_timer_small)
  have msg: "timeout_message big (Some 5000) = ''timeout after 5000s''"
    by (simp add: timeout_message_def number_text_safe show_nat_examples)
  have a: "exec cmd opts = None \<longrightarrow>
      safeRun big exec cmd opts = (Some (5000000, Resolved None), [''timeout after 5000s''])"
    by (simp add: safeRun_def runCommand_def timer msg run_promise_timer_only)
  have b: "exec cmd opts = Some (t, r) \<and> 5000000 < t \<longrightarrow>
      safeRun big exec cmd opts = (Some (5000000, Resolved None), [''timeout after 5000s''])"
    by (simp add: safeRun_def runCommand_def timer msg run_promise_timer_first)
  have c: "exec cmd opts = Some (t, r) \<and> t < 5000000 \<longrightarrow>
      safeRun big exec cmd opts =
        (case err r of
           None \<Rightarrow> (Some (t, Resolved (Some (stdout r))), [])
         | Some e \<Rightarrow>
             (Some (t, Resolved None),
              [''exited with '' @ render_code big (code e) @ [newline] @ stderr r]))"
    by (simp add: safeRun_def runCommand_def timer run_promise_exec_first
        runCommand_callback_def split: option.splits)
  from timer a b c show ?thesis by blast
qed

text \<open>The witness of C10: a hanging child is given up after 5000000 milliseconds; children
  that take six and ten seconds are awaited to their end.\<close>

theorem safeRun_timer_witness:
  "safeRun no_printer hanging_exec ''cat'' () =
     (Some (5000000, Resolved None), [''timeout after 5000s'']) \<and>
   safeRun no_printer six_seconds_exec ''build'' () =
     (Some (6000, Resolved None), [''exited with 1'' @ [newline] @ ''late'']) \<and>
   safeRun no_printer sleep10_exec ''sleep 10'' () = (Some (10000, Resolved (Some [])), [])"
  using safeRun_timer [of hanging_exec "''cat''" "()" no_printer 0 undefined]
    safeRun_timer [of six_seconds_exec "''build''" "()" no_printer 6000
      "\<lparr>err = Some \<lparr>code = ExitCode 1\<rparr>, stdout = ''partial'', stderr = ''late''\<rparr>"]
    safeRun_timer [of sleep10_exec "''sleep 10''" "()" no_printer 10000
      "\<lparr>err = None, stdout = [], stderr = []\<rparr>"]
  by (simp add: hanging_exec_def six_seconds_exec_def sleep10_exec_def render_code_def
      int_text_def number_text_safe show_nat_examples)

section \<open>Deep equality: properties\<close>

lemma strict_eq_refl: "strict_eq a a \<longleftrightarrow> a \<noteq> JNum NaN"
  by (cases a) auto

lemma strict_eq_imp_eq: "strict_eq a b \<Longrightarrow> a = b"
  by (cases a; cases b) auto

text \<open>
  C3, as stated, fails: \<^verbatim>\<open>equals(NaN, NaN)\<close> is \<^verbatim>\<open>false\<close>, since \<^verbatim>\<open>NaN === NaN\<close> is
  false and a number is not an object.
\<close>

theorem equals_reflexive_counterexample: "equals 1 [] (JNum NaN) (JNum NaN) = Some False"
  by (simp add: typeof_def)

text \<open>
  C3, amended. For every value \<open>a\<close> other than the number \<^verbatim>\<open>NaN\<close>, nested arrays and
  mappings included (whatever they contain), \<^verbatim>\<open>equals(a, a)\<close> returns \<^verbatim>\<open>true\<close>, at the
  first test and at any depth of calls allowed.
\<close>

theorem equals_reflexive: "a \<noteq> JNum NaN \<Longrightarrow> equals (Suc n) h a a = Some True"
  by (simp add: strict_eq_refl)

text \<open>The witness of C3: the mapping \<^verbatim>\<open>{xs: [1, [2, 3]], n: NaN}\<close> equals itself.\<close>

theorem equals_reflexive_witness:
  "JRef 0 \<noteq> JNum NaN \<and> equals 1 nested_heap (JRef 0) (JRef 0) = Some True"
  using equals_reflexive [of "JRef 0" 0 nested_heap] by simp

text \<open>
  C8. When exactly one of the two values is \<^verbatim>\<open>null\<close> or \<^verbatim>\<open>undefined\<close>, \<^verbatim>\<open>equals\<close>
  returns \<^verbatim>\<open>false\<close>; and \<^verbatim>\<open>equals(null, undefined)\<close> is \<^verbatim>\<open>false\<close>.
\<close>

theorem equals_nullish:
  "(nullish a \<noteq> nullish b \<longrightarrow> equals (Suc n) h a b = Some False) \<and>
   equals (Suc n) h JNull JUndefined = Some False"
proof -
  have "equals (Suc n) h a b = Some False" if "nullish a \<noteq> nullish b"
  proof -
    from that have "a \<noteq> b" by auto
    then have "\<not> strict_eq a b" using strict_eq_imp_eq by blast
    moreover from that have "a = JNull \<or> a = JUndefined \<or> b = JNull \<or> b = JUndefined"
      by (auto simp: nullish_def)
    ultimately show ?thesis by simp
  qed
  then show ?thesis by simp
qed

text \<open>The witness of C8: \<^verbatim>\<open>null\<close> against \<^verbatim>\<open>0\<close>, the empty string against
  \<^verbatim>\<open>undefined\<close>, and \<^verbatim>\<open>null\<close> against \<^verbatim>\<open>undefined\<close>.\<close>

theorem equals_nullish_witness:
  "nullish JNull \<noteq> nullish (JNum (Finite 0)) \<and>
   equals 1 [] JNull (JNum (Finite 0)) = Some False \<and>
   equals 1 [] (JStr []) JUndefined = Some False \<and>
   equals 1 [] JNull JUndefined = Some False"
  using equals_nullish [of JNull "JNum (Finite 0)" 0 "[]"]
    equals_nullish [of "JStr []" JUndefined 0 "[]"]
  by (simp add: nullish_def)

subsection \<open>The mapping case\<close>

lemma every_equal_Some:
  "(\<And>x. x \<in> set xs \<Longrightarrow> f x = Some (p x)) \<Longrightarrow> every_equal f xs = Some (\<forall>x\<in>set xs. p x)"
  by (induction xs) (auto split: bool.splits)

lemma equals_strings: "equals (Suc n) h (JStr x) (JStr y) = Some (x = y)"
  by (simp add: typeof_def)

lemma cell_at_append1: "cell_at (h @ [c, d]) (length h) = Some c"
  by (simp add: cell_at_def)

lemma cell_at_append2: "cell_at (h @ [c, d]) (Suc (length h)) = Some d"
proof -
  have "(h @ [c, d]) ! (length h + 1) = [c, d] ! 1"
    by (rule nth_append_length_plus)
  then show ?thesis by (simp add: cell_at_def)
qed

text \<open>The call \<^verbatim>\<open>equals(oneKeys, otherKeys)\<close> on the two new arrays decides whether the
  lists of keys are equal.\<close>

lemma equals_key_arrays:
  "equals (Suc (Suc n)) (h @ [ArrayCell (map JStr ks1), ArrayCell (map JStr ks2)])
     (JRef (length h)) (JRef (Suc (length h))) = Some (ks1 = ks2)"
proof -
  let ?h = "h @ [ArrayCell (map JStr ks1), ArrayCell (map JStr ks2)]"
  have elems: "array_elems ?h (JRef (length h)) = map JStr ks1"
    "array_elems ?h (JRef (Suc (length h))) = map JStr ks2"
    by (simp_all only: array_elems_def jsval.case cell_at_append1 cell_at_append2 option.case cell.case)
  have tags: "typeof ?h (JRef (length h)) = Some T_object"
    "typeof ?h (JRef (Suc (length h))) = Some T_object"
    "isArray ?h (JRef (length h))" "isArray ?h (JRef (Suc (length h)))"
    by (simp_all only: typeof_def isArray_def jsval.case cell_at_append1 cell_at_append2
        option.case cell.case)
  show ?thesis
  proof (cases "length ks1 = length ks2")
    case False
    then have "ks1 \<noteq> ks2" by auto
    with False show ?thesis
      by (subst equals.simps(2)) (simp add: elems tags del: equals.simps)
  next
    case True
    have "every_equal (\<lambda>i. equals (Suc n) ?h (elem_at (map JStr ks1) i) (elem_at (map JStr ks2) i))
        [0..<length ks1] = Some (\<forall>i\<in>set [0..<length ks1]. ks1 ! i = ks2 ! i)"
      by (rule every_equal_Some)
        (use True in \<open>simp add: elem_at_def equals_strings del: equals.simps\<close>)
    moreover have "(\<forall>i\<in>set [0..<length ks1]. ks1 ! i = ks2 ! i) \<longleftrightarrow> ks1 = ks2"
    proof
      assume "\<forall>i\<in>set [0..<length ks1]. ks1 ! i = ks2 ! i"
      then show "ks1 = ks2" using True by (intro nth_equalityI) simp_all
    next
      assume "ks1 = ks2"
      then show "\<forall>i\<in>set [0..<length ks1]. ks1 ! i = ks2 ! i" by simp
    qed
    ultimately show ?thesis
      using True by (subst equals.simps(2)) (simp add: elems tags del: equals.simps)
  qed
qed

lemma equals_objects:
  assumes "a \<noteq> b" "cell_at h a = Some (ObjectCell m1)" "cell_at h b = Some (ObjectCell m2)"
  shows "equals (Suc (Suc (Suc n))) h (JRef a) (JRef b) =
    mapping_case_spec (equals (Suc (Suc n)) h) m1 m2"
proof -
  have tags: "typeof h (JRef a) = Some T_object" "typeof h (JRef b) = Some T_object"
    "\<not> isArray h (JRef a)" "\<not> isArray h (JRef b)"
    using assms by (simp_all add: typeof_def isArray_def)
  have props: "properties h (JRef a) = m1" "properties h (JRef b) = m2"
    using assms by (simp_all add: properties_def)
  show ?thesis
    using assms(1)
    by (subst equals.simps(2))
      (simp add: tags props own_keys_def equals_key_arrays mapping_case_spec_def Let_def
        del: equals.simps)
qed

lemma sorted_keys_eq:
  assumes "distinct (map fst m)" "distinct (map fst m')" "set m' = set m"
  shows "sort (map fst m') = sort (map fst m)"
proof -
  have "set (map fst m') = set (map fst m)" using assms(3) by simp
  then have "set (sort (map fst m')) = set (sort (map fst m))" by simp
  moreover have "distinct (sort (map fst m'))" "distinct (sort (map fst m))"
    using assms by simp_all
  ultimately show ?thesis
    by (intro sorted_distinct_set_unique) simp_all
qed

lemma get_prop_eq:
  assumes "distinct (map fst m)" "distinct (map fst m')" "set m' = set m"
  shows "get_prop m' k = get_prop m k"
  using map_of_inject_set [OF assms(2) assms(1)] assms(3) by (simp add: get_prop_def)

lemma mapping_case_spec_order:
  assumes "distinct (map fst m1)" "distinct (map fst m1')" "set m1' = set m1"
    and "distinct (map fst m2)" "distinct (map fst m2')" "set m2' = set m2"
  shows "mapping_case_spec rec m1' m2' = mapping_case_spec rec m1 m2"
  using sorted_keys_eq [OF assms(1-3)] sorted_keys_eq [OF assms(4-6)]
    get_prop_eq [OF assms(1-3)] get_prop_eq [OF assms(4-6)]
  by (simp add: mapping_case_spec_def)

text \<open>
  C7. For two distinct mappings \<^verbatim>\<open>equals\<close> computes what the specification words: the
  sorted lists of key names are compared as sequences, and if they are equal the values
  at each sorted key are compared recursively, in order (with at least three nested
  calls allowed: the mappings, the arrays of keys, the keys). Hence the order of the keys
  is irrelevant: mappings with the same properties in any other order compare the same.
\<close>

theorem equals_mappings:
  assumes "a \<noteq> b" "cell_at h a = Some (ObjectCell m1)" "cell_at h b = Some (ObjectCell m2)"
  shows "equals (Suc (Suc (Suc n))) h (JRef a) (JRef b) =
      mapping_case_spec (equals (Suc (Suc n)) h) m1 m2 \<and>
    (a' \<noteq> b' \<and> cell_at h a' = Some (ObjectCell m1') \<and> cell_at h b' = Some (ObjectCell m2') \<and>
     distinct (map fst m1) \<and> distinct (map fst m1') \<and> set m1' = set m1 \<and>
     distinct (map fst m2) \<and> distinct (map fst m2') \<and> set m2' = set m2 \<longrightarrow>
     equals (Suc (Suc (Suc n))) h (JRef a') (JRef b') =
       equals (Suc (Suc (Suc n))) h (JRef a) (JRef b))"
proof -
  have first: "equals (Suc (Suc (Suc n))) h (JRef a) (JRef b) =
      mapping_case_spec (equals (Suc (Suc n)) h) m1 m2"
    using assms by (rule equals_objects)
  have "equals (Suc (Suc (Suc n))) h (JRef a') (JRef b') =
      equals (Suc (Suc (Suc n))) h (JRef a) (JRef b)"
    if "a' \<noteq> b'" "cell_at h a' = Some (ObjectCell m1')" "cell_at h b' = Some (ObjectCell m2')"
      and d: "distinct (map fst m1)" "distinct (map fst m1')" "set m1' = set m1"
        "distinct (map fst m2)" "distinct (map fst m2')" "set m2' = set m2"
  proof -
    have "equals (Suc (Suc (Suc n))) h (JRef a') (JRef b') =
        mapping_case_spec (equals (Suc (Suc n)) h) m1' m2'"
      using that(1-3) by (rule equals_objects)
    also have "\<dots> = mapping_case_spec (equals (Suc (Suc n)) h) m1 m2"
      using d by (rule mapping_case_spec_order)
    finally show ?thesis using first by simp
  qed
  with first show ?thesis by blast
qed

text \<open>The witness of C7: \<^verbatim>\<open>equals({a:1,b:2}, {b:2,a:1})\<close> is \<^verbatim>\<open>true\<close>, and so it is
  with the arguments exchanged.\<close>

theorem equals_mappings_witness:
  "equals 3 ab_heap (JRef 0) (JRef 1) = Some True \<and>
   equals 3 ab_heap (JRef 1) (JRef 0) = equals 3 ab_heap (JRef 0) (JRef 1)"
proof -
  have s: "sort [''a'', ''b''] = [''a'', ''b'']" "sort [''b'', ''a''] = [''a'', ''b'']"
    by simp_all
  have c: "cell_at ab_heap 0 = Some (ObjectCell [(''a'', JNum (Finite 1)), (''b'', JNum (Finite 2))])"
    "cell_at ab_heap 1 = Some (ObjectCell [(''b'', JNum (Finite 2)), (''a'', JNum (Finite 1))])"
    by (simp_all add: cell_at_def ab_heap_def)
  have three: "(3::nat) = Suc (Suc (Suc 0))" by simp
  show ?thesis
    using equals_mappings [OF _ c(1) c(2), of 0 1 0 "[(''b'', JNum (Finite 2)), (''a'', JNum (Finite 1))]"
        "[(''a'', JNum (Finite 1)), (''b'', JNum (Finite 2))]"] c
    unfolding three
    by (simp add: mapping_case_spec_def s get_prop_def del: equals.simps) (auto simp: insert_commute)
qed

section \<open>The remote URL builder: properties\<close>

lemma normalize_examples:
  "normalize_remote ''git@github.com:foo/bar.git'' = ''https://github.com/foo/bar''"
  "normalize_remote ''https://gitlab.com/foo/bar.git'' = ''https://gitlab.com/foo/bar''"
  "normalize_remote ''git://github.com/foo/bar.git'' = ''https:////github.com/foo/bar/undefined''"
  by (simp_all add: normalize_remote_def strip_git_suffix_def part_text_def)

lemma example_parser_examples:
  "example_parser ''https://github.com/foo/bar'' = Inr ''github.com''"
  "example_parser ''https://gitlab.com/foo/bar'' = Inr ''gitlab.com''"
  "example_parser ''https:////github.com/foo/bar/undefined'' = Inl two_slashes_error"
  by (simp_all add: example_parser_def scheme_of_def after_scheme_def authority_of_def path_of_def
      uri_delim_def scheme_ok_def word_char_def)

text \<open>
  C4. With a parser that returns, for \<^verbatim>\<open>https://github.com/foo/bar\<close>, an authority
  beginning with \<^verbatim>\<open>github.com\<close>, the call
  \<^verbatim>\<open>getUrl("git@github.com:foo/bar.git", "main", "src/x.ts", [10,20])\<close> returns exactly
  \<^verbatim>\<open>https://github.com/foo/bar/blob/main/src/x.ts#L10-L20\<close> and shows no notification.
\<close>

theorem getUrl_ssh_example:
  "uri_parse ''https://github.com/foo/bar'' = Inr a \<Longrightarrow> starts_with a ''github.com'' \<Longrightarrow>
   getUrl big uri_parse ''git@github.com:foo/bar.git'' ''main'' ''src/x.ts'' (LineNumbers [10, 20]) =
     Inr (''https://github.com/foo/bar/blob/main/src/x.ts#L10-L20'', [])"
  by (simp add: getUrl_def normalize_examples number_text_safe show_nat_examples
      del: starts_with.simps)

text \<open>The witness of C4: the same call with the parser of the examples.\<close>

theorem getUrl_ssh_example_witness:
  "example_parser ''https://github.com/foo/bar'' = Inr ''github.com'' \<and>
   starts_with ''github.com'' ''github.com'' \<and>
   getUrl no_printer example_parser ''git@github.com:foo/bar.git'' ''main'' ''src/x.ts''
       (LineNumbers [10, 20]) =
     Inr (''https://github.com/foo/bar/blob/main/src/x.ts#L10-L20'', [])"
proof -
  have p: "example_parser ''https://github.com/foo/bar'' = Inr ''github.com''"
    by (rule example_parser_examples)
  have h: "starts_with ''github.com'' ''github.com''"
    by simp
  from p h getUrl_ssh_example [of example_parser "''github.com''" no_printer]
  show ?thesis by simp
qed

text \<open>
  C9, as stated, fails: \<^verbatim>\<open>getUrl\<close> has no handler around \<^verbatim>\<open>Uri.parse\<close>, so it throws
  whenever the parser does. The remote \<^verbatim>\<open>git://github.com/foo/bar.git\<close> begins with
  \<^verbatim>\<open>git\<close> and is rewritten to \<^verbatim>\<open>https:////github.com/foo/bar/undefined\<close>, which the
  parser rejects (no authority, and a path that begins with two slashes).
\<close>

theorem getUrl_unsupported_counterexample:
  "getUrl no_printer example_parser ''git://github.com/foo/bar.git'' ''main'' ''x.ts'' NoLines =
     Inl two_slashes_error"
  by (simp add: getUrl_def normalize_examples example_parser_examples)

text \<open>
  C9, amended. \<^verbatim>\<open>getUrl\<close> throws exactly when \<^verbatim>\<open>Uri.parse\<close> throws on the rewritten
  remote, and then the same error; it raises nothing of its own. For every remote for
  which the parser returns an authority that does not start with \<^verbatim>\<open>github.com\<close>,
  \<^verbatim>\<open>getUrl\<close> returns the empty string and shows exactly one notification, a warning
  that names the authority.
\<close>

theorem getUrl_unsupported:
  "(uri_parse (normalize_remote remote) = Inr a \<and> \<not> starts_with a ''github.com'' \<longrightarrow>
      getUrl big uri_parse remote branch filepath lines =
        Inr ([], [(''Can'' @ [squote] @ ''t get url form: '' @ a, ''warning'')])) \<and>
   (getUrl big uri_parse remote branch filepath lines = Inl e \<longleftrightarrow>
      uri_parse (normalize_remote remote) = Inl e)"
  by (cases "uri_parse (normalize_remote remote)")
    (simp_all add: getUrl_def Let_def del: starts_with.simps)

text \<open>The witness of C9: \<^verbatim>\<open>getUrl("https://gitlab.com/foo/bar.git", "main", "x.ts")\<close>
  with the parser of the examples.\<close>

theorem getUrl_unsupported_witness:
  "example_parser (normalize_remote ''https://gitlab.com/foo/bar.git'') = Inr ''gitlab.com'' \<and>
   \<not> starts_with ''gitlab.com'' ''github.com'' \<and>
   getUrl no_printer example_parser ''https://gitlab.com/foo/bar.git'' ''main'' ''x.ts'' NoLines =
     Inr ([], [(''Can'' @ [squote] @ ''t get url form: gitlab.com'', ''warning'')])"
proof -
  have p: "example_parser (normalize_remote ''https://gitlab.com/foo/bar.git'') = Inr ''gitlab.com''"
    by (simp add: normalize_examples example_parser_examples)
  have h: "\<not> starts_with ''gitlab.com'' ''github.com''"
    by simp
  from p h getUrl_unsupported [of example_parser "''https://gitlab.com/foo/bar.git''"
      "''gitlab.com''" no_printer "''main''" "''x.ts''" NoLines]
  show ?thesis by simp
qed

end
